theory Spec2Isabelle
  imports Main "HOL-Library.Sublist"
begin

text \<open>
  A model of the \<^verbatim>\<open>Document\<close> component of react-pdf and of its event bus: the
  definitions come first, each following the function of the source it is named after,
  then the properties proved of them. Callbacks and collaborators whose code is not part
  of the component (listeners, the PDF engine, the download manager, helpers of
  shared/utils) are parameters of the definitions.
\<close>

section \<open>The event bus (shared/eventBus)\<close>

text \<open>
  A listener is a JavaScript function; the bus only ever compares listeners with
  \<^verbatim>\<open>===\<close>, so a listener is modelled by a value of an arbitrary type \<open>'l\<close> that
  stands for the identity of the function. One element of a listener array is the object
  \<^verbatim>\<open>{ listener, external, once }\<close> pushed by \<^verbatim>\<open>_on\<close>.
\<close>

record 'l entry =
  listener :: 'l
  external :: bool
  once :: bool

text \<open>
  The private field \<^verbatim>\<open>#listeners\<close> is an object without prototype that maps an event
  name to its listener array; a name that was never subscribed is \<^verbatim>\<open>undefined\<close>.
\<close>

type_synonym 'l listeners = "string \<Rightarrow> 'l entry list option"

text \<open>
  The optional third argument of \<^verbatim>\<open>_on\<close>: \<^verbatim>\<open>null\<close>, or an object whose fields
  \<^verbatim>\<open>external\<close> and \<^verbatim>\<open>once\<close> may be missing (\<open>None\<close>). The code tests each field
  with \<^verbatim>\<open>=== true\<close>.
\<close>

record options =
  opt_external :: "bool option"
  opt_once :: "bool option"




text \<open>
  The loop of \<^verbatim>\<open>_off\<close>: splice out the first element whose listener is the given
  function and stop. The options argument is never read.
\<close>

fun splice_first :: "'l \<Rightarrow> 'l entry list \<Rightarrow> 'l entry list" where
  "splice_first l [] = []"
| "splice_first l (e # es) = (if listener e = l then es else e # splice_first l es)"

definition priv_off :: "string \<Rightarrow> 'l \<Rightarrow> options option \<Rightarrow> 'l listeners \<Rightarrow> 'l listeners" where
  "priv_off eventName l opts ls =
     (case ls eventName of
        None \<Rightarrow> ls
      | Some es \<Rightarrow> ls(eventName \<mapsto> splice_first l es))"


definition EventBus_off :: "string \<Rightarrow> 'l \<Rightarrow> options option \<Rightarrow> 'l listeners \<Rightarrow> 'l listeners" where
  "EventBus_off eventName l opts ls =
     priv_off eventName l
       (Some \<lparr>opt_external = Some True,
              opt_once = (case opts of None \<Rightarrow> None | Some ob \<Rightarrow> opt_once ob)\<rparr>) ls"










subsection \<open>Notions used to state the properties of the bus\<close>

















section \<open>The page registries of Document\<close>

text \<open>
  The part of the state of the \<^verbatim>\<open>Document\<close> component that the registration functions
  read and write: the arrays \<^verbatim>\<open>pages.current\<close> and \<^verbatim>\<open>annotationEditorLayers.current\<close>,
  the resolved value of the editing manager (\<open>None\<close> while it is \<^verbatim>\<open>undefined\<close>) and the
  flag \<^verbatim>\<open>canLoadAnnotations\<close>. A slot of an array is \<open>None\<close> while it is a hole; the
  references stored are DOM elements and layer objects, which are truthy.
\<close>

record ('r, 'm) registries =
  pages :: "'r option list"
  annotationEditorLayers :: "'r option list"
  annotationEditorUiManager :: "'m option"
  canLoadAnnotations :: bool

text \<open>
  The assignment \<^verbatim>\<open>array[index] = value\<close> of JavaScript, for an index that is a natural
  number: inside the array it overwrites the slot, beyond its end it extends the array,
  leaving holes in between.
\<close>

definition array_set :: "'a option list \<Rightarrow> nat \<Rightarrow> 'a \<Rightarrow> 'a option list" where
  "array_set xs i v =
     (if i < length xs then xs[i := Some v]
      else xs @ replicate (i - length xs) None @ [Some v])"

text \<open>\<^verbatim>\<open>array.filter(Boolean).length\<close>: the number of slots that hold a reference.\<close>

definition filled :: "'a option list \<Rightarrow> nat" where
  "filled xs = length (filter (\<lambda>x. x \<noteq> None) xs)"

text \<open>
  The part of \<^verbatim>\<open>onLoadSuccess\<close> that concerns the registries: both arrays are allocated
  anew with \<^verbatim>\<open>new Array(pdf.numPages)\<close>, and \<^verbatim>\<open>createAnnotationEditorUiManager\<close> resolves
  the editing manager. The flag \<^verbatim>\<open>canLoadAnnotations\<close> is not written.
\<close>

definition onLoadSuccess :: "nat \<Rightarrow> 'm \<Rightarrow> ('r, 'm) registries \<Rightarrow> ('r, 'm) registries" where
  "onLoadSuccess numPages uiManager s =
     s\<lparr>pages := replicate numPages None,
       annotationEditorLayers := replicate numPages None,
       annotationEditorUiManager := Some uiManager\<rparr>"

definition registerPage :: "nat \<Rightarrow> 'r \<Rightarrow> ('r, 'm) registries \<Rightarrow> ('r, 'm) registries" where
  "registerPage pageIndex ref s = s\<lparr>pages := array_set (pages s) pageIndex ref\<rparr>"

definition registerAnnotationEditorLayer ::
  "nat \<Rightarrow> 'r \<Rightarrow> ('r, 'm) registries \<Rightarrow> ('r, 'm) registries" where
  "registerAnnotationEditorLayer pageIndex ref s =
     (let layers = array_set (annotationEditorLayers s) pageIndex ref in
      s\<lparr>annotationEditorLayers := layers,
        canLoadAnnotations :=
          (annotationEditorUiManager s \<noteq> None \<and>
           length (pages s) > 0 \<and>
           length (pages s) = filled layers)\<rparr>)"

text \<open>
  The registrations made by the page components: for each index of the list in turn,
  \<^verbatim>\<open>registerPage\<close> with the page element of that index, then
  \<^verbatim>\<open>registerAnnotationEditorLayer\<close> with its editor layer.
\<close>

fun register_all ::
  "(nat \<Rightarrow> 'r) \<Rightarrow> (nat \<Rightarrow> 'r) \<Rightarrow> nat list \<Rightarrow> ('r, 'm) registries \<Rightarrow> ('r, 'm) registries" where
  "register_all pageRef layerRef [] s = s"
| "register_all pageRef layerRef (i # is) s =
     register_all pageRef layerRef is
       (registerAnnotationEditorLayer i (layerRef i) (registerPage i (pageRef i) s))"

text \<open>
  A document of three pages, freshly loaded, with numbers standing for the references:
  \<open>100 + i\<close> for the element of page \<open>i\<close> and \<open>200 + i\<close> for its editor layer.
\<close>

definition page_element :: "nat \<Rightarrow> nat" where
  "page_element i = 100 + i"

definition editor_layer :: "nat \<Rightarrow> nat" where
  "editor_layer i = 200 + i"

definition three_pages :: "(nat, string) registries" where
  "three_pages =
     onLoadSuccess 3 ''uiManager''
       \<lparr>pages = [], annotationEditorLayers = [], annotationEditorUiManager = None,
        canLoadAnnotations = False\<rparr>"

section \<open>The resolver state and the source of a document\<close>

subsection \<open>The resolver (shared/hooks/useResolver)\<close>

text \<open>
  \<^verbatim>\<open>Document\<close> reads the value of a resolver as \<^verbatim>\<open>undefined\<close> (nothing yet), as
  \<^verbatim>\<open>false\<close> (failed, with the error beside it) or as the resolved value.
\<close>

datatype 'v resolve_state = Absent | Resolved 'v | Failed string

datatype 'v action = RESET | RESOLVE 'v | REJECT string

text \<open>
  Modelled from the spec: the reducer of \<^verbatim>\<open>useResolver\<close> (shared/hooks/useResolver),
  which is not among the sources. The spec (3, ResolveState): transitions only via
  RESET to Absent, RESOLVE to Resolved, REJECT to Rejected; a RESET wins whatever the
  current variant is.
\<close>

definition reducer :: "'v resolve_state \<Rightarrow> 'v action \<Rightarrow> 'v resolve_state" where
  "reducer state act =
     (case act of RESET \<Rightarrow> Absent | RESOLVE v \<Rightarrow> Resolved v | REJECT e \<Rightarrow> Failed e)"

subsection \<open>File inputs\<close>

type_synonym bytes = "nat list"

text \<open>
  An object literal given as \<^verbatim>\<open>file\<close>: the keys \<^verbatim>\<open>data\<close>, \<^verbatim>\<open>range\<close> and \<^verbatim>\<open>url\<close>, each
  present or not, and the other keys with their values. A range transport is named by
  a number.
\<close>

record params =
  p_data :: "bytes option"
  p_range :: "nat option"
  p_url :: "string option"
  p_rest :: "(string \<times> string) list"

datatype file_object =
    RangeTransport nat
  | ArrayBuffer bytes
  | Blob bytes
  | PlainObject params

text \<open>
  The \<^verbatim>\<open>file\<close> prop is a string or an object; an object has an identity (the number),
  and two objects with the same content are different values for \<^verbatim>\<open>===\<close>. A missing
  prop is \<open>None\<close>.
\<close>

datatype file_prop = FileString string | FileObject nat file_object

text \<open>\<^verbatim>\<open>a === b\<close>, which is also how React compares the dependencies of an effect.\<close>

fun identical :: "file_prop option \<Rightarrow> file_prop option \<Rightarrow> bool" where
  "identical None None = True"
| "identical (Some (FileString a)) (Some (FileString b)) = (a = b)"
| "identical (Some (FileObject i x)) (Some (FileObject j y)) = (i = j)"
| "identical _ _ = False"

text \<open>\<^verbatim>\<open>dequal(a, b)\<close>: equality of content, whatever the identities.\<close>

fun dequal :: "file_prop option \<Rightarrow> file_prop option \<Rightarrow> bool" where
  "dequal None None = True"
| "dequal (Some (FileString a)) (Some (FileString b)) = (a = b)"
| "dequal (Some (FileObject i x)) (Some (FileObject j y)) = (x = y)"
| "dequal _ _ = False"

text \<open>The test \<^verbatim>\<open>if (file)\<close>: a missing prop and the empty string are falsy.\<close>

fun truthy :: "file_prop option \<Rightarrow> bool" where
  "truthy None = False"
| "truthy (Some (FileString s)) = (s \<noteq> [])"
| "truthy (Some (FileObject i x)) = True"

fun isParameterObject :: "file_prop option \<Rightarrow> bool" where
  "isParameterObject (Some (FileObject i (PlainObject p))) =
     (p_data p \<noteq> None \<or> p_range p \<noteq> None \<or> p_url p \<noteq> None)"
| "isParameterObject _ = False"

subsection \<open>Advisories and observations\<close>

datatype advisory =
    CrossOrigin
  | UnmemoizedFile
  | ErrorLogged string

text \<open>
  Everything the modelled functions of \<^verbatim>\<open>Document\<close> do that can be observed from
  outside: a warning, a line on the console, a callback of the host (called when the
  host has given one), the setter of
  \<^verbatim>\<open>isSaveInProgress\<close>, a call on the document handle (\<^verbatim>\<open>saveDocument\<close>,
  \<^verbatim>\<open>getData\<close>) and a call on the download manager (\<^verbatim>\<open>download(blob, url, filename)\<close>
  with the bytes of the blob, \<^verbatim>\<open>downloadUrl(url, filename)\<close>).
\<close>

datatype observation =
    Advisory advisory
  | ConsoleError string
  | OnSourceSuccess
  | OnSourceError string
  | OnLoadSuccess
  | OnLoadError string
  | SetIsSaveInProgress bool
  | SaveDocument
  | GetData
  | Download bytes string string
  | DownloadUrl string string

text \<open>The callbacks by which \<^verbatim>\<open>Document\<close> reports a failure to the host.\<close>

fun is_error_callback :: "observation \<Rightarrow> bool" where
  "is_error_callback (OnSourceError e) = True"
| "is_error_callback (OnLoadError e) = True"
| "is_error_callback _ = False"

text \<open>\<^verbatim>\<open>warning(condition, message)\<close> reports the message when the condition is false.\<close>

definition warning :: "bool \<Rightarrow> advisory \<Rightarrow> advisory list" where
  "warning condition message = (if condition then [] else [message])"

text \<open>
  The helpers of shared/utils that \<^verbatim>\<open>findDocumentSource\<close> calls are not among the
  sources; they are parameters: whether the code runs in a browser, the test for a data
  URI, its decoder, the reader of a blob (which fails with a message or yields the
  bytes), and the condition under which \<^verbatim>\<open>displayCORSWarning\<close> reports.
\<close>

record utils =
  isBrowser :: bool
  isDataURI :: "string \<Rightarrow> bool"
  dataURItoByteString :: "string \<Rightarrow> bytes"
  loadFromFile :: "bytes \<Rightarrow> string + bytes"
  schemeDiffers :: bool

text \<open>
  Modelled from the spec: \<^verbatim>\<open>displayCORSWarning\<close> of shared/utils, which is not among the
  sources and is called without arguments. The spec (4.3, rule 2): emit a non-fatal
  cross-origin advisory if the scheme differs from the host's origin conventions.
\<close>

definition displayCORSWarning :: "utils \<Rightarrow> advisory list" where
  "displayCORSWarning u = warning (\<not> schemeDiffers u) CrossOrigin"

subsection \<open>\<^verbatim>\<open>findDocumentSource\<close>\<close>

text \<open>
  A source is an object with the keys of a parameter object. It is either the \<^verbatim>\<open>file\<close>
  object itself, returned as it is, or an object made by this call.
\<close>

datatype source_identity = Fresh | SameAsFile nat

record source =
  identity :: source_identity
  content :: params

datatype 'a promise_result = Fulfilled 'a | RejectedWith string

definition only_data :: "bytes \<Rightarrow> params" where
  "only_data d = \<lparr>p_data = Some d, p_range = None, p_url = None, p_rest = []\<rparr>"

definition only_url :: "string \<Rightarrow> params" where
  "only_url s = \<lparr>p_data = None, p_range = None, p_url = Some s, p_rest = []\<rparr>"

definition only_range :: "nat \<Rightarrow> params" where
  "only_range h = \<lparr>p_data = None, p_range = Some h, p_url = None, p_rest = []\<rparr>"

text \<open>
  The result is the list of advisories reported on the way and how the promise settles.
  The two \<^verbatim>\<open>invariant\<close> calls reject the promise. In
  \<^verbatim>\<open>{ data: fileByteString, ...otherParams }\<close> a \<^verbatim>\<open>data\<close> key of the object itself comes
  later and wins.
\<close>

definition findDocumentSource ::
  "utils \<Rightarrow> file_prop option \<Rightarrow> advisory list \<times> source option promise_result" where
  "findDocumentSource u file =
     (if \<not> truthy file then ([], Fulfilled None)
      else case file of
        None \<Rightarrow> ([], Fulfilled None)
      | Some (FileString s) \<Rightarrow>
          if isDataURI u s then
            ([], Fulfilled (Some \<lparr>identity = Fresh, content = only_data (dataURItoByteString u s)\<rparr>))
          else
            (displayCORSWarning u, Fulfilled (Some \<lparr>identity = Fresh, content = only_url s\<rparr>))
      | Some (FileObject i (RangeTransport h)) \<Rightarrow>
          ([], Fulfilled (Some \<lparr>identity = Fresh, content = only_range h\<rparr>))
      | Some (FileObject i (ArrayBuffer b)) \<Rightarrow>
          ([], Fulfilled (Some \<lparr>identity = Fresh, content = only_data b\<rparr>))
      | Some (FileObject i (Blob b)) \<Rightarrow>
          if isBrowser u then
            (case loadFromFile u b of
               Inl err \<Rightarrow> ([], RejectedWith err)
             | Inr d \<Rightarrow> ([], Fulfilled (Some \<lparr>identity = Fresh, content = only_data d\<rparr>)))
          else
            ([], RejectedWith
               ''Invariant failed: Invalid parameter object: need either .data, .range or .url'')
      | Some (FileObject i (PlainObject p)) \<Rightarrow>
          if \<not> isParameterObject file then
            ([], RejectedWith
               ''Invariant failed: Invalid parameter object: need either .data, .range or .url'')
          else
            (case p_url p of
               Some url \<Rightarrow>
                 if isDataURI u url then
                   ([], Fulfilled (Some
                      \<lparr>identity = Fresh,
                       content = p\<lparr>p_url := None,
                                  p_data := (case p_data p of
                                               None \<Rightarrow> Some (dataURItoByteString u url)
                                             | Some d \<Rightarrow> Some d)\<rparr>\<rparr>))
                 else
                   (displayCORSWarning u, Fulfilled (Some \<lparr>identity = SameAsFile i, content = p\<rparr>))
             | None \<Rightarrow> ([], Fulfilled (Some \<lparr>identity = SameAsFile i, content = p\<rparr>))))"

subsection \<open>The effects of Document that depend on the file\<close>

text \<open>
  The part of the state of the component that these effects read and write: the ref
  \<^verbatim>\<open>prevFile\<close> and the resolver of the source.
\<close>

record source_part =
  prevFile :: "file_prop option"
  sourceState :: "source option resolve_state"

text \<open>The effect that detects a file prop which changed but equals the previous one.\<close>

definition detectUnmemoizedFile :: "file_prop option \<Rightarrow> source_part \<Rightarrow> advisory list \<times> source_part" where
  "detectUnmemoizedFile file st =
     (if truthy file \<and> \<not> identical file (prevFile st) \<and> isParameterObject file then
        (warning (\<not> dequal file (prevFile st)) UnmemoizedFile, st\<lparr>prevFile := file\<rparr>)
      else ([], st))"

definition resetSource :: "source_part \<Rightarrow> source_part" where
  "resetSource st = st\<lparr>sourceState := reducer (sourceState st) RESET\<rparr>"

text \<open>The two callbacks on the promise of \<^verbatim>\<open>findDocumentSource\<close>.\<close>

definition source_settled :: "source option promise_result \<Rightarrow> source_part \<Rightarrow> source_part" where
  "source_settled res st =
     (case res of
        Fulfilled nextSource \<Rightarrow> st\<lparr>sourceState := reducer (sourceState st) (RESOLVE nextSource)\<rparr>
      | RejectedWith error \<Rightarrow> st\<lparr>sourceState := reducer (sourceState st) (REJECT error)\<rparr>)"

text \<open>
  Whether the value \<^verbatim>\<open>source\<close> read from the resolver is unchanged for React, between
  the state committed before and a state reached by the settling of a new call: both
  \<^verbatim>\<open>undefined\<close>, both \<^verbatim>\<open>false\<close>, both \<^verbatim>\<open>null\<close>, or the same object, which an object
  made by the new call never is.
\<close>

fun same_source :: "source option resolve_state \<Rightarrow> source option resolve_state \<Rightarrow> bool" where
  "same_source Absent Absent = True"
| "same_source (Failed e) (Failed e') = True"
| "same_source (Resolved None) (Resolved None) = True"
| "same_source (Resolved (Some a)) (Resolved (Some b)) =
     (identity b \<noteq> Fresh \<and> identity a = identity b)"
| "same_source _ _ = False"

text \<open>
  The effect with dependency \<^verbatim>\<open>[source]\<close>: when the value changed, nothing for
  \<^verbatim>\<open>undefined\<close>, \<^verbatim>\<open>onSourceError\<close> (which also logs the error) for \<^verbatim>\<open>false\<close>, and
  \<^verbatim>\<open>onSourceSuccess\<close> otherwise.
\<close>

definition source_effect ::
  "source option resolve_state \<Rightarrow> source option resolve_state \<Rightarrow> observation list" where
  "source_effect old new =
     (if same_source old new then []
      else case new of
        Absent \<Rightarrow> []
      | Failed e \<Rightarrow> [Advisory (ErrorLogged e), OnSourceError e]
      | Resolved v \<Rightarrow> [OnSourceSuccess])"

text \<open>
  What follows a commit in which the effects that depend on \<^verbatim>\<open>file\<close> run: the check
  for an unmemoized file, \<^verbatim>\<open>resetSource\<close>, the call of \<^verbatim>\<open>findDocumentSource\<close> and, once
  its promise has settled, the effect on \<^verbatim>\<open>source\<close>. React may commit the reset state
  before the promise settles or may apply both dispatches in one render; \<open>batched\<close>
  says which.
\<close>

definition file_effects ::
  "utils \<Rightarrow> bool \<Rightarrow> file_prop option \<Rightarrow> source_part \<Rightarrow> observation list \<times> source_part" where
  "file_effects u batched file st =
     (let (adv1, st1) = detectUnmemoizedFile file st;
          st2 = resetSource st1;
          (adv2, res) = findDocumentSource u file;
          st3 = source_settled res st2
      in (map Advisory (adv1 @ adv2) @
          (if batched then source_effect (sourceState st) (sourceState st3)
           else source_effect (sourceState st) (sourceState st2) @
                source_effect (sourceState st2) (sourceState st3)),
          st3))"

text \<open>The first render, and a later render with the file prop \<open>file\<close> after \<open>prev\<close>.\<close>

definition mount :: "utils \<Rightarrow> bool \<Rightarrow> file_prop option \<Rightarrow> observation list \<times> source_part" where
  "mount u batched file =
     file_effects u batched file \<lparr>prevFile = None, sourceState = Absent\<rparr>"

definition rerender ::
  "utils \<Rightarrow> bool \<Rightarrow> file_prop option \<Rightarrow> file_prop option \<Rightarrow> source_part
     \<Rightarrow> observation list \<times> source_part" where
  "rerender u batched prev file st =
     (if identical prev file then ([], st) else file_effects u batched file st)"

text \<open>
  A browser page served over HTTP, where \<^verbatim>\<open>displayCORSWarning\<close> has nothing to report,
  and the same page opened from the local file system, where it has. A data URI starts
  with \<^verbatim>\<open>data:\<close>; the decoder and the blob reader are stand-ins.
\<close>

definition http_page :: utils where
  "http_page =
     \<lparr>isBrowser = True,
      isDataURI = (\<lambda>s. take 5 s = ''data:''),
      dataURItoByteString = (\<lambda>s. map of_char (drop 5 s)),
      loadFromFile = Inr,
      schemeDiffers = False\<rparr>"

definition local_page :: utils where
  "local_page = http_page\<lparr>schemeDiffers := True\<rparr>"

text \<open>Two objects with the same content: \<^verbatim>\<open>{ url: "https://host/sample.pdf" }\<close>.\<close>

definition file_A :: file_prop where
  "file_A = FileObject 1 (PlainObject (only_url ''https://host/sample.pdf''))"

definition file_B :: file_prop where
  "file_B = FileObject 2 (PlainObject (only_url ''https://host/sample.pdf''))"

section \<open>Loading the document\<close>

text \<open>
  The loading task returned by \<^verbatim>\<open>pdfjs.getDocument\<close>, as far as \<^verbatim>\<open>loadDocument\<close> reads
  it: the flag \<^verbatim>\<open>destroyed\<close>. The engine settles the promise of the task by fulfilling
  it with a document or by rejecting it with an error; a document is a value of an
  arbitrary type \<open>'p\<close>.
\<close>

record loading_task =
  destroyed :: bool

text \<open>\<^verbatim>\<open>loadDocument\<close> starts a task; the function it returns destroys that task.\<close>

definition loadDocument_start :: loading_task where
  "loadDocument_start = \<lparr>destroyed = False\<rparr>"

definition loadDocument_cleanup :: "loading_task \<Rightarrow> loading_task" where
  "loadDocument_cleanup loadingTask = loadingTask\<lparr>destroyed := True\<rparr>"

text \<open>The callback given to \<^verbatim>\<open>then\<close> and the callback given to \<^verbatim>\<open>catch\<close>.\<close>

definition loadDocument_then :: "'p \<Rightarrow> 'p resolve_state \<Rightarrow> 'p resolve_state" where
  "loadDocument_then nextPdf pdfState = reducer pdfState (RESOLVE nextPdf)"

definition loadDocument_catch ::
  "loading_task \<Rightarrow> string \<Rightarrow> 'p resolve_state \<Rightarrow> 'p resolve_state" where
  "loadDocument_catch loadingTask error pdfState =
     (if destroyed loadingTask then pdfState else reducer pdfState (REJECT error))"

text \<open>The promise of the task settles: the resolver state after the callback has run.\<close>

definition loadDocument_settled ::
  "loading_task \<Rightarrow> 'p promise_result \<Rightarrow> 'p resolve_state \<Rightarrow> 'p resolve_state" where
  "loadDocument_settled loadingTask res pdfState =
     (case res of
        Fulfilled nextPdf \<Rightarrow> loadDocument_then nextPdf pdfState
      | RejectedWith error \<Rightarrow> loadDocument_catch loadingTask error pdfState)"

definition resetDocument :: "'p resolve_state \<Rightarrow> 'p resolve_state" where
  "resetDocument pdfState = reducer pdfState RESET"

text \<open>
  The source is superseded while a task is in flight: React runs the cleanup of the old
  effect, then \<^verbatim>\<open>resetDocument\<close> and \<^verbatim>\<open>loadDocument\<close> for the new source. The result is
  the old task, the task of the new source and the resolver state.
\<close>

definition source_superseded ::
  "loading_task \<Rightarrow> 'p resolve_state \<Rightarrow> loading_task \<times> loading_task \<times> 'p resolve_state" where
  "source_superseded loadingTask pdfState =
     (loadDocument_cleanup loadingTask, loadDocument_start, resetDocument pdfState)"

text \<open>
  The effect with dependency \<^verbatim>\<open>[pdf]\<close>, run when the value read from the resolver has
  changed: nothing for \<^verbatim>\<open>undefined\<close>, \<^verbatim>\<open>onLoadError\<close> (which also logs the error) for
  \<^verbatim>\<open>false\<close>, \<^verbatim>\<open>onLoadSuccess\<close> for a document.
\<close>

definition pdf_effect :: "'p resolve_state \<Rightarrow> observation list" where
  "pdf_effect pdfState =
     (case pdfState of
        Absent \<Rightarrow> []
      | Failed e \<Rightarrow> [Advisory (ErrorLogged e), OnLoadError e]
      | Resolved pdf \<Rightarrow> [OnLoadSuccess])"

section \<open>Download and save\<close>

text \<open>
  What the collaborators of \<^verbatim>\<open>enableDownload\<close> answer: \<^verbatim>\<open>pdf.saveDocument()\<close> and
  \<^verbatim>\<open>pdf.getData()\<close> throw (with the message of the error) or yield bytes, the two
  methods of the download manager throw or return, and \<^verbatim>\<open>pdf.annotationStorage.size\<close>
  is a number of entries.
\<close>

record handle_io =
  saveDocument_result :: "string + bytes"
  getData_result :: "string + bytes"
  download_throws :: "bytes \<Rightarrow> string \<Rightarrow> string \<Rightarrow> string option"
  downloadUrl_throws :: "string \<Rightarrow> string \<Rightarrow> string option"
  annotationStorage_size :: nat

text \<open>\<^verbatim>\<open>const url = downloadFileName || 'annotated.pdf'\<close>; the file name is the same string.\<close>

definition enableDownload_url :: "string option \<Rightarrow> string" where
  "enableDownload_url downloadFileName =
     (case downloadFileName of
        None \<Rightarrow> ''annotated.pdf''
      | Some n \<Rightarrow> if n = [] then ''annotated.pdf'' else n)"

text \<open>
  An asynchronous function is modelled by what it is observed to do, in order, until its
  promise settles, and by how the promise settles: \<open>None\<close> when it is fulfilled,
  the message of the error when it is rejected.
\<close>

definition download :: "handle_io \<Rightarrow> string \<Rightarrow> string \<Rightarrow> observation list \<times> string option" where
  "download io url filename =
     (case getData_result io of
        Inl err \<Rightarrow> ([GetData, DownloadUrl url filename], downloadUrl_throws io url filename)
      | Inr d \<Rightarrow>
          (case download_throws io d url filename of
             None \<Rightarrow> ([GetData, Download d url filename], None)
           | Some err \<Rightarrow>
               ([GetData, Download d url filename, DownloadUrl url filename],
                downloadUrl_throws io url filename)))"

definition save_error_message :: "string \<Rightarrow> string" where
  "save_error_message reason = ''Error when saving the document: '' @ reason"

text \<open>
  \<^verbatim>\<open>saveWithAnnotations\<close>. Its first argument is the value of \<^verbatim>\<open>isSaveInProgress\<close> in
  the render whose effect created the function: a constant of the closure.
\<close>

definition saveWithAnnotations ::
  "bool \<Rightarrow> handle_io \<Rightarrow> string \<Rightarrow> string \<Rightarrow> observation list \<times> string option" where
  "saveWithAnnotations isSaveInProgress io url filename =
     (if isSaveInProgress then ([], None)
      else
        (let (body, settled) =
               (case saveDocument_result io of
                  Inl reason \<Rightarrow>
                    (let (fallback, r) = download io url filename
                     in ([SaveDocument, ConsoleError (save_error_message reason)] @ fallback, r))
                | Inr d \<Rightarrow>
                    (case download_throws io d url filename of
                       None \<Rightarrow> ([SaveDocument, Download d url filename], None)
                     | Some reason \<Rightarrow>
                         (let (fallback, r) = download io url filename
                          in ([SaveDocument, Download d url filename,
                               ConsoleError (save_error_message reason)] @ fallback, r))))
         in ([SetIsSaveInProgress True] @ body @ [SetIsSaveInProgress False], settled)))"

text \<open>
  The part of \<^verbatim>\<open>saveWithAnnotations\<close> that runs at once when it is called, up to the
  first \<^verbatim>\<open>await\<close>: the guard, the setter, and the call \<^verbatim>\<open>pdf.saveDocument()\<close>, whose
  promise is then in flight.
\<close>

definition saveWithAnnotations_begin :: "bool \<Rightarrow> observation list" where
  "saveWithAnnotations_begin isSaveInProgress =
     (if isSaveInProgress then [] else [SetIsSaveInProgress True, SaveDocument])"

text \<open>
  \<^verbatim>\<open>downloadWithAnnotations\<close> calls one of the two functions and drops its promise.
\<close>

definition downloadWithAnnotations ::
  "bool \<Rightarrow> handle_io \<Rightarrow> string \<Rightarrow> string \<Rightarrow> observation list" where
  "downloadWithAnnotations isSaveInProgress io url filename =
     (if annotationStorage_size io > 0 then fst (saveWithAnnotations isSaveInProgress io url filename)
      else fst (download io url filename))"

subsection \<open>The save guard and the renders of the component\<close>

text \<open>
  The state \<^verbatim>\<open>isSaveInProgress\<close> of the component, the value of it that the installed
  command \<^verbatim>\<open>eventsRef.current.downloadWithAnnotations\<close> has captured, and the number of
  calls of \<^verbatim>\<open>pdf.saveDocument()\<close> whose promise is pending.
\<close>

record save_part =
  isSaveInProgress :: bool
  captured :: bool
  savesInFlight :: nat

fun observe :: "save_part \<Rightarrow> observation \<Rightarrow> save_part" where
  "observe s (SetIsSaveInProgress b) = s\<lparr>isSaveInProgress := b\<rparr>"
| "observe s SaveDocument = s\<lparr>savesInFlight := Suc (savesInFlight s)\<rparr>"
| "observe s _ = s"

text \<open>The host calls the installed command, for a document that has edits.\<close>

definition call_save :: "save_part \<Rightarrow> save_part" where
  "call_save s = foldl observe s (saveWithAnnotations_begin (captured s))"

text \<open>
  The effect \<^verbatim>\<open>enableDownload\<close> has \<^verbatim>\<open>isSaveInProgress\<close> among its dependencies: after a
  render in which the state has changed it runs again and installs a command that
  captures the new value.
\<close>

definition enableDownload :: "save_part \<Rightarrow> save_part" where
  "enableDownload s = s\<lparr>captured := isSaveInProgress s\<rparr>"

text \<open>A pending save settles and the rest of \<^verbatim>\<open>saveWithAnnotations\<close> runs to its end.\<close>

definition save_settled :: "save_part \<Rightarrow> save_part" where
  "save_settled s = s\<lparr>isSaveInProgress := False, savesInFlight := savesInFlight s - 1\<rparr>"

definition idle :: save_part where
  "idle = \<lparr>isSaveInProgress = False, captured = False, savesInFlight = 0\<rparr>"

text \<open>A document handle whose \<^verbatim>\<open>saveDocument\<close> throws, with a download manager that works.\<close>

definition failing_save :: handle_io where
  "failing_save =
     \<lparr>saveDocument_result = Inl ''worker was destroyed'',
      getData_result = Inr [37, 80, 68, 70],
      download_throws = (\<lambda>d url filename. None),
      downloadUrl_throws = (\<lambda>url filename. None),
      annotationStorage_size = 2\<rparr>"

section \<open>Properties of the event bus\<close>

subsection \<open>Order of invocation\<close>






subsection \<open>Listeners that return\<close>






subsection \<open>The subscriptions of one function during dispatches\<close>













lemma subseq_empty: "subseq xs ys \<Longrightarrow> ys = [] \<Longrightarrow> xs = []"
  by simp













subsection \<open>The claims about the bus\<close>







section \<open>Properties of the page registries\<close>


lemma array_set_in_range: "i < length xs \<Longrightarrow> array_set xs i v = xs[i := Some v]"
  by (simp add: array_set_def)

lemma length_filter_full: "length (filter P xs) = length xs \<longleftrightarrow> (\<forall>x\<in>set xs. P x)"
proof (induction xs)
  case Nil
  then show ?case by simp
next
  case (Cons a xs)
  have "length (filter P xs) \<le> length xs" by simp
  then have "length (filter P xs) \<noteq> Suc (length xs)" by linarith
  then show ?case using Cons by auto
qed

lemma filled_full: "filled xs = length xs \<longleftrightarrow> (\<forall>j<length xs. xs ! j \<noteq> None)"
  by (simp add: filled_def length_filter_full all_set_conv_all_nth)

lemma register_all_append:
  "register_all pr lr (xs @ ys) s = register_all pr lr ys (register_all pr lr xs s)"
  by (induction xs arbitrary: s) auto

lemma register_all_pages:
  "\<forall>i\<in>set is. i < length (pages s) \<Longrightarrow>
   length (pages (register_all pr lr is s)) = length (pages s) \<and>
   (\<forall>j<length (pages s). pages (register_all pr lr is s) ! j =
        (if j \<in> set is then Some (pr j) else pages s ! j))"
proof (induction "is" arbitrary: s)
  case Nil
  then show ?case by simp
next
  case (Cons i "is")
  let ?s = "registerAnnotationEditorLayer i (lr i) (registerPage i (pr i) s)"
  have p: "pages ?s = (pages s)[i := Some (pr i)]"
    using Cons.prems by (simp add: registerAnnotationEditorLayer_def registerPage_def array_set_in_range Let_def)
  then have "\<forall>i\<in>set is. i < length (pages ?s)" using Cons.prems by simp
  from Cons.IH[OF this] show ?case by (auto simp: p)
qed

lemma register_all_layers:
  "\<forall>i\<in>set is. i < length (annotationEditorLayers s) \<Longrightarrow>
   length (annotationEditorLayers (register_all pr lr is s)) = length (annotationEditorLayers s) \<and>
   (\<forall>j<length (annotationEditorLayers s). annotationEditorLayers (register_all pr lr is s) ! j =
        (if j \<in> set is then Some (lr j) else annotationEditorLayers s ! j))"
proof (induction "is" arbitrary: s)
  case Nil
  then show ?case by simp
next
  case (Cons i "is")
  let ?s = "registerAnnotationEditorLayer i (lr i) (registerPage i (pr i) s)"
  have p: "annotationEditorLayers ?s = (annotationEditorLayers s)[i := Some (lr i)]"
    using Cons.prems by (simp add: registerAnnotationEditorLayer_def registerPage_def array_set_in_range Let_def)
  then have "\<forall>i\<in>set is. i < length (annotationEditorLayers ?s)" using Cons.prems by simp
  from Cons.IH[OF this] show ?case by (auto simp: p)
qed

lemma register_all_rest:
  "annotationEditorUiManager (register_all pr lr is s) = annotationEditorUiManager s \<and>
   registries.more (register_all pr lr is s) = registries.more s"
  by (induction "is" arbitrary: s) (auto simp: registerAnnotationEditorLayer_def registerPage_def Let_def)

lemma register_all_flag:
  assumes "is \<noteq> []"
  shows "canLoadAnnotations (register_all pr lr is s) =
     (annotationEditorUiManager s \<noteq> None \<and> 0 < length (pages (register_all pr lr is s)) \<and>
      length (pages (register_all pr lr is s)) = filled (annotationEditorLayers (register_all pr lr is s)))"
proof -
  obtain xs l where "is": "is = xs @ [l]" using assms by (metis rev_exhaust)
  let ?S = "register_all pr lr xs s"
  have "register_all pr lr is s = registerAnnotationEditorLayer l (lr l) (registerPage l (pr l) ?S)"
    by (simp add: "is" register_all_append)
  moreover have "annotationEditorUiManager ?S = annotationEditorUiManager s"
    by (simp add: register_all_rest)
  ultimately show ?thesis
    by (simp add: registerAnnotationEditorLayer_def registerPage_def Let_def)
qed

lemma register_all_same_set:
  assumes "length (pages s) = N" "length (annotationEditorLayers s) = N"
    and "set xs = set ys" "\<forall>i\<in>set xs. i < N"
  shows "register_all pr lr xs s = register_all pr lr ys s"
proof -
  let ?X = "register_all pr lr xs s" and ?Y = "register_all pr lr ys s"
  have P: "pages ?X = pages ?Y"
    using register_all_pages[of xs s pr lr] register_all_pages[of ys s pr lr] assms
    by (auto intro!: nth_equalityI)
  have L: "annotationEditorLayers ?X = annotationEditorLayers ?Y"
    using register_all_layers[of xs s pr lr] register_all_layers[of ys s pr lr] assms
    by (auto intro!: nth_equalityI)
  have e: "xs = [] \<longleftrightarrow> ys = []" using assms(3) by auto
  have C: "canLoadAnnotations ?X = canLoadAnnotations ?Y"
  proof (cases "xs = []")
    case True
    then show ?thesis using e by simp
  next
    case False
    then have "ys \<noteq> []" using e by simp
    then show ?thesis using False by (simp add: register_all_flag P L)
  qed
  show ?thesis
    by (rule registries.equality) (simp_all add: P L C register_all_rest)
qed

text \<open>
  C2. Take a document of \<open>N \<ge> 1\<close> pages: both registries have length \<open>N\<close>, and the
  editing manager is resolved. A call of \<^verbatim>\<open>registerAnnotationEditorLayer\<close> for a page
  index below \<open>N\<close> sets the readiness flag to true exactly when, after the call, every
  index below \<open>N\<close> of the editor-layer registry holds a layer; so it is false while some
  index is absent, and the call that sets it to true is the one after which no slot is
  absent, that is, every slot other than the one just written was filled before. In any
  state the flag written is: manager resolved, and page registry not empty, and the
  number of filled editor-layer slots equal to the length of the page registry.
\<close>

theorem readiness_recomputed:
  assumes "length (pages s) = N" and "length (annotationEditorLayers s) = N" and "1 \<le> N"
    and "annotationEditorUiManager s \<noteq> None" and "i < N"
  shows "canLoadAnnotations (registerAnnotationEditorLayer i ref s) =
           (\<forall>j<N. annotationEditorLayers (registerAnnotationEditorLayer i ref s) ! j \<noteq> None) \<and>
         canLoadAnnotations (registerAnnotationEditorLayer i ref s) =
           (\<forall>j<N. j \<noteq> i \<longrightarrow> annotationEditorLayers s ! j \<noteq> None) \<and>
         canLoadAnnotations (registerAnnotationEditorLayer i ref' s') =
           (annotationEditorUiManager s' \<noteq> None \<and> 0 < length (pages s') \<and>
            filled (annotationEditorLayers (registerAnnotationEditorLayer i ref' s')) =
              length (pages s'))"
proof -
  let ?l = "(annotationEditorLayers s)[i := Some ref]"
  have l: "annotationEditorLayers (registerAnnotationEditorLayer i ref s) = ?l"
    using assms by (simp add: registerAnnotationEditorLayer_def array_set_in_range Let_def)
  have f: "(filled ?l = N) = (\<forall>j<N. ?l ! j \<noteq> None)"
    using filled_full[of ?l] assms by simp
  have c: "canLoadAnnotations (registerAnnotationEditorLayer i ref s) = (filled ?l = N)"
    using assms by (auto simp: registerAnnotationEditorLayer_def array_set_in_range Let_def)
  have A: "canLoadAnnotations (registerAnnotationEditorLayer i ref s) =
           (\<forall>j<N. annotationEditorLayers (registerAnnotationEditorLayer i ref s) ! j \<noteq> None)"
    by (simp only: c l f)
  have B: "canLoadAnnotations (registerAnnotationEditorLayer i ref s) =
           (\<forall>j<N. j \<noteq> i \<longrightarrow> annotationEditorLayers s ! j \<noteq> None)"
    using assms by (auto simp only: c f nth_list_update split: if_splits)
  have C: "canLoadAnnotations (registerAnnotationEditorLayer i ref' s') =
           (annotationEditorUiManager s' \<noteq> None \<and> 0 < length (pages s') \<and>
            filled (annotationEditorLayers (registerAnnotationEditorLayer i ref' s')) =
              length (pages s'))"
    by (auto simp: registerAnnotationEditorLayer_def Let_def)
  show ?thesis using A B C by blast
qed

text \<open>
  The scenario of a document with three pages: after the editor layers of pages 0 and 1
  the flag is false, and the registration of page 2 sets it to true.
\<close>

theorem readiness_recomputed_witness:
  "canLoadAnnotations
     (registerAnnotationEditorLayer 1 (editor_layer 1)
        (registerAnnotationEditorLayer 0 (editor_layer 0) three_pages)) = False \<and>
   canLoadAnnotations
     (registerAnnotationEditorLayer 2 (editor_layer 2)
        (registerAnnotationEditorLayer 1 (editor_layer 1)
           (registerAnnotationEditorLayer 0 (editor_layer 0) three_pages))) = True"
proof -
  define s1 where "s1 = registerAnnotationEditorLayer 0 (editor_layer 0) three_pages"
  define s2 where "s2 = registerAnnotationEditorLayer 1 (editor_layer 1) s1"
  have e1: "s1 = \<lparr>pages = [None, None, None],
                  annotationEditorLayers = [Some 200, None, None],
                  annotationEditorUiManager = Some ''uiManager'',
                  canLoadAnnotations = False\<rparr>"
    unfolding s1_def
    by (simp add: three_pages_def onLoadSuccess_def registerAnnotationEditorLayer_def
          array_set_def filled_def editor_layer_def Let_def numeral_3_eq_3)
  have e2: "s2 = \<lparr>pages = [None, None, None],
                  annotationEditorLayers = [Some 200, Some 201, None],
                  annotationEditorUiManager = Some ''uiManager'',
                  canLoadAnnotations = False\<rparr>"
    unfolding s2_def e1
    by (simp add: registerAnnotationEditorLayer_def array_set_def filled_def
          editor_layer_def Let_def)
  have h1: "length (pages s1) = 3" "length (annotationEditorLayers s1) = 3"
    "annotationEditorUiManager s1 \<noteq> None"
    by (simp_all add: e1)
  have h2: "length (pages s2) = 3" "length (annotationEditorLayers s2) = 3"
    "annotationEditorUiManager s2 \<noteq> None"
    by (simp_all add: e2)
  have "canLoadAnnotations (registerAnnotationEditorLayer 1 (editor_layer 1) s1) =
      (\<forall>j<3. j \<noteq> 1 \<longrightarrow> annotationEditorLayers s1 ! j \<noteq> None)"
    using readiness_recomputed[where s = s1 and N = 3 and i = 1 and ref = "editor_layer 1"
        and ref' = "editor_layer 1" and s' = s1, OF h1(1) h1(2) _ h1(3)]
    by fastforce
  moreover have "\<not> (\<forall>j<3. j \<noteq> 1 \<longrightarrow> annotationEditorLayers s1 ! j \<noteq> None)"
  proof
    assume "\<forall>j<3. j \<noteq> 1 \<longrightarrow> annotationEditorLayers s1 ! j \<noteq> None"
    then have "annotationEditorLayers s1 ! 2 \<noteq> None" by simp
    then show False by (simp add: e1)
  qed
  ultimately have A: "canLoadAnnotations (registerAnnotationEditorLayer 1 (editor_layer 1) s1) = False"
    by simp
  have "canLoadAnnotations (registerAnnotationEditorLayer 2 (editor_layer 2) s2) =
      (\<forall>j<3. j \<noteq> 2 \<longrightarrow> annotationEditorLayers s2 ! j \<noteq> None)"
    using readiness_recomputed[where s = s2 and N = 3 and i = 2 and ref = "editor_layer 2"
        and ref' = "editor_layer 2" and s' = s2, OF h2(1) h2(2) _ h2(3)]
    by fastforce
  moreover have "\<forall>j<3. j \<noteq> 2 \<longrightarrow> annotationEditorLayers s2 ! j \<noteq> None"
    by (simp add: e2 less_Suc_eq numeral_3_eq_3)
  ultimately have B: "canLoadAnnotations (registerAnnotationEditorLayer 2 (editor_layer 2) s2) = True"
    by simp
  show ?thesis using A B unfolding s2_def s1_def by simp
qed

text \<open>
  C3. For every page count \<open>N\<close> and every order \<open>is\<close> in which the indices below \<open>N\<close>
  are registered, each at least once and possibly several times (with the page element
  and the editor layer that belong to the index), the state reached from a freshly
  loaded document is the one reached by registering in the order \<open>0, 1, \<dots>, N - 1\<close>:
  the same page registry, the same editor-layer registry and the same readiness flag.
\<close>

theorem registration_order_independent:
  assumes "set is = {0..<N}"
  shows "register_all pageRef layerRef is (onLoadSuccess N m s) =
         register_all pageRef layerRef [0..<N] (onLoadSuccess N m s)"
  by (rule register_all_same_set[of _ N]) (use assms in \<open>auto simp: onLoadSuccess_def\<close>)

text \<open>
  The orders \<open>2, 0, 1\<close> and \<open>2, 0, 2, 1, 0\<close> for a document of three pages: all slots are
  filled with the references of their index and the document is ready.
\<close>

theorem registration_order_independent_witness:
  "set [2, 0, 1] = {0..<3::nat} \<and>
   register_all page_element editor_layer [2, 0, 1] three_pages =
     register_all page_element editor_layer [0..<3] three_pages \<and>
   register_all page_element editor_layer [2, 0, 2, 1, 0] three_pages =
     register_all page_element editor_layer [0..<3] three_pages \<and>
   register_all page_element editor_layer [2, 0, 1] three_pages =
     \<lparr>pages = [Some 100, Some 101, Some 102],
      annotationEditorLayers = [Some 200, Some 201, Some 202],
      annotationEditorUiManager = Some ''uiManager'',
      canLoadAnnotations = True\<rparr>"
proof -
  have a: "set [2, 0, 1] = {0..<3::nat}" by auto
  have b: "set [2, 0, 2, 1, 0] = {0..<3::nat}" by auto
  have c: "register_all page_element editor_layer [2, 0, 1] three_pages =
     \<lparr>pages = [Some 100, Some 101, Some 102],
      annotationEditorLayers = [Some 200, Some 201, Some 202],
      annotationEditorUiManager = Some ''uiManager'',
      canLoadAnnotations = True\<rparr>"
    by (simp add: three_pages_def onLoadSuccess_def registerAnnotationEditorLayer_def
          registerPage_def array_set_def filled_def editor_layer_def page_element_def
          Let_def numeral_3_eq_3)
  have d: "register_all page_element editor_layer [2, 0, 1] three_pages =
     register_all page_element editor_layer [0..<3] three_pages"
    unfolding three_pages_def by (rule registration_order_independent[OF a])
  have e: "register_all page_element editor_layer [2, 0, 2, 1, 0] three_pages =
     register_all page_element editor_layer [0..<3] three_pages"
    unfolding three_pages_def by (rule registration_order_independent[OF b])
  show ?thesis using a c d e by blast
qed

section \<open>Properties of source resolution\<close>

lemma findDocumentSource_parameter_object:
  assumes "isParameterObject (Some (FileObject j (PlainObject p)))"
  shows "\<exists>src. snd (findDocumentSource u (Some (FileObject j (PlainObject p)))) = Fulfilled (Some src) \<and>
           (identity src = Fresh \<or> identity src = SameAsFile j)"
  using assms by (auto simp: findDocumentSource_def split: option.splits)

text \<open>
  C4 as stated fails. \<^verbatim>\<open>{ url: "https://host/sample.pdf" }\<close> is given as \<^verbatim>\<open>file\<close> at the
  first render and then replaced by a new object with the same content. The two are
  equal for \<^verbatim>\<open>dequal\<close> and different for \<^verbatim>\<open>===\<close>. The component reports the advisory and
  after it \<^verbatim>\<open>onSourceSuccess\<close> once more, whether or not React commits the reset state
  in between.
\<close>

theorem equal_file_object_new_event:
  "dequal (Some file_A) (Some file_B) \<and> \<not> identical (Some file_A) (Some file_B) \<and>
   fst (rerender http_page True (Some file_A) (Some file_B) (snd (mount http_page True (Some file_A)))) =
     [Advisory UnmemoizedFile, OnSourceSuccess] \<and>
   fst (rerender http_page False (Some file_A) (Some file_B) (snd (mount http_page False (Some file_A)))) =
     [Advisory UnmemoizedFile, OnSourceSuccess]"
  by (simp add: file_A_def file_B_def rerender_def mount_def file_effects_def detectUnmemoizedFile_def resetSource_def
          source_settled_def reducer_def source_effect_def warning_def Let_def split_beta
          findDocumentSource_def displayCORSWarning_def http_page_def only_url_def)

text \<open>
  C4, amended. Let \<open>A\<close> and \<open>B\<close> be parameter objects (objects with a key \<^verbatim>\<open>data\<close>,
  \<^verbatim>\<open>range\<close> or \<^verbatim>\<open>url\<close>) of different identity and equal content, \<open>A\<close> being a new file
  when it was given. When \<open>B\<close> replaces \<open>A\<close>, the component reports the advisory about
  the unmemoized file, then whatever \<^verbatim>\<open>findDocumentSource\<close> reports for \<open>B\<close>, and then
  \<^verbatim>\<open>onSourceSuccess\<close>: the source is reset and resolved again, since a change of the
  file is detected by identity.
\<close>

theorem equal_file_object_resolved_again:
  assumes "i \<noteq> j" and "isParameterObject (Some (FileObject i (PlainObject p)))"
    and "\<not> identical (Some (FileObject i (PlainObject p))) (prevFile st)"
  shows "fst (rerender u batched (Some (FileObject i (PlainObject p))) (Some (FileObject j (PlainObject p)))
               (snd (file_effects u batched (Some (FileObject i (PlainObject p))) st))) =
         Advisory UnmemoizedFile #
         map Advisory (fst (findDocumentSource u (Some (FileObject j (PlainObject p))))) @
         [OnSourceSuccess]"
proof -
  let ?A = "Some (FileObject i (PlainObject p))" and ?B = "Some (FileObject j (PlainObject p))"
  have pB: "isParameterObject ?B" using assms(2) by simp
  obtain a where a: "snd (findDocumentSource u ?A) = Fulfilled (Some a)"
      "identity a = Fresh \<or> identity a = SameAsFile i"
    using findDocumentSource_parameter_object[OF assms(2)] by blast
  obtain b where b: "snd (findDocumentSource u ?B) = Fulfilled (Some b)"
      "identity b = Fresh \<or> identity b = SameAsFile j"
    using findDocumentSource_parameter_object[OF pB] by blast
  define S where "S = snd (file_effects u batched ?A st)"
  have st: "prevFile S = ?A" "sourceState S = Resolved (Some a)"
    using a assms(2,3) unfolding S_def
    by (auto simp: file_effects_def detectUnmemoizedFile_def resetSource_def source_settled_def
          reducer_def Let_def split_beta)
  have ns: "\<not> same_source (Resolved (Some a)) (Resolved (Some b))"
    using a(2) b(2) assms(1) by auto
  have "fst (rerender u batched ?A ?B S) =
         Advisory UnmemoizedFile # map Advisory (fst (findDocumentSource u ?B)) @ [OnSourceSuccess]"
    using assms(1) pB b st ns
    by (auto simp: rerender_def file_effects_def detectUnmemoizedFile_def resetSource_def
          source_settled_def reducer_def source_effect_def warning_def Let_def split_beta)
  then show ?thesis unfolding S_def .
qed

theorem equal_file_object_resolved_again_witness:
  "(1::nat) \<noteq> 2 \<and>
   isParameterObject (Some file_A) \<and>
   \<not> identical (Some file_A) (prevFile \<lparr>prevFile = None, sourceState = Absent\<rparr>) \<and>
   fst (rerender http_page True (Some file_A) (Some file_B) (snd (mount http_page True (Some file_A)))) =
     Advisory UnmemoizedFile #
     map Advisory (fst (findDocumentSource http_page (Some file_B))) @ [OnSourceSuccess]"
proof -
  have a: "(1::nat) \<noteq> 2" by simp
  have b: "isParameterObject (Some (FileObject 1 (PlainObject (only_url ''https://host/sample.pdf''))))"
    by (simp add: only_url_def)
  have c: "\<not> identical (Some (FileObject 1 (PlainObject (only_url ''https://host/sample.pdf''))))
             (prevFile \<lparr>prevFile = None, sourceState = Absent\<rparr>)"
    by simp
  show ?thesis
    using equal_file_object_resolved_again[OF a b c, of http_page True] a b c
    unfolding file_A_def file_B_def mount_def by simp
qed

text \<open>
  C6 as stated fails in two ways. The empty string is a string that is no data URI, and
  it resolves to \<^verbatim>\<open>null\<close>, not to \<^verbatim>\<open>{ url: "" }\<close>. And on the path of a plain URL the
  code calls \<^verbatim>\<open>displayCORSWarning\<close>: where its condition holds, the advisory is reported
  for \<^verbatim>\<open>"https://host/sample.pdf"\<close> too.
\<close>

theorem plain_url_source_exceptions:
  "\<not> isDataURI http_page [] \<and>
   findDocumentSource http_page (Some (FileString [])) = ([], Fulfilled None) \<and>
   \<not> isDataURI local_page ''https://host/sample.pdf'' \<and>
   findDocumentSource local_page (Some (FileString ''https://host/sample.pdf'')) =
     ([CrossOrigin], Fulfilled (Some \<lparr>identity = Fresh, content = only_url ''https://host/sample.pdf''\<rparr>))"
  by (simp add: findDocumentSource_def displayCORSWarning_def warning_def http_page_def local_page_def)

text \<open>
  C6, amended. For every string that is not empty and not a data URI,
  \<^verbatim>\<open>findDocumentSource\<close> fulfils with the new object \<^verbatim>\<open>{ url: file }\<close>, and what it
  reports is what \<^verbatim>\<open>displayCORSWarning\<close> reports: the cross-origin advisory when the
  condition of that helper holds, and nothing otherwise.
\<close>

theorem plain_url_source:
  assumes "s \<noteq> []" and "\<not> isDataURI u s"
  shows "findDocumentSource u (Some (FileString s)) =
           (displayCORSWarning u, Fulfilled (Some \<lparr>identity = Fresh, content = only_url s\<rparr>)) \<and>
         displayCORSWarning u = (if schemeDiffers u then [CrossOrigin] else [])"
  using assms by (simp add: findDocumentSource_def displayCORSWarning_def warning_def)

theorem plain_url_source_witness:
  "''https://host/sample.pdf'' \<noteq> [] \<and>
   \<not> isDataURI http_page ''https://host/sample.pdf'' \<and>
   findDocumentSource http_page (Some (FileString ''https://host/sample.pdf'')) =
     ([], Fulfilled (Some \<lparr>identity = Fresh, content = only_url ''https://host/sample.pdf''\<rparr>))"
proof -
  have a: "''https://host/sample.pdf'' \<noteq> []" by simp
  have b: "\<not> isDataURI http_page ''https://host/sample.pdf''" by (simp add: http_page_def)
  have c: "schemeDiffers http_page = False" by (simp add: http_page_def)
  show ?thesis using plain_url_source[OF a b] a b c by simp
qed

section \<open>Properties of the document load\<close>

text \<open>
  A task that was destroyed and whose promise is then rejected leaves the resolver state
  as it is: nothing is reported.
\<close>

lemma destroyed_load_rejection_ignored:
  "destroyed loadingTask \<Longrightarrow> loadDocument_settled loadingTask (RejectedWith error) pdfState = pdfState"
  by (simp add: loadDocument_settled_def loadDocument_catch_def)

text \<open>
  C5 at the input where the code departs from it. The source is superseded while a task
  is in flight: the task is destroyed and the resolver is reset for the new source.
  The promise of the destroyed task is then fulfilled with a document. The callback
  given to \<^verbatim>\<open>then\<close> does not look at \<^verbatim>\<open>loadingTask.destroyed\<close>, as the one given to
  \<^verbatim>\<open>catch\<close> does: the stale document becomes the resolved value, over the reset state of
  the new source, and \<^verbatim>\<open>onLoadSuccess\<close> runs for it.
\<close>

theorem stale_load_is_applied:
  "destroyed (fst (source_superseded loadingTask pdfState)) \<and>
   snd (snd (source_superseded loadingTask pdfState)) = Absent \<and>
   loadDocument_settled (fst (source_superseded loadingTask pdfState)) (Fulfilled stalePdf)
     (snd (snd (source_superseded loadingTask pdfState))) = Resolved stalePdf \<and>
   pdf_effect (Resolved stalePdf) = [OnLoadSuccess]"
  by (simp add: source_superseded_def loadDocument_cleanup_def resetDocument_def reducer_def
        loadDocument_settled_def loadDocument_then_def pdf_effect_def)

section \<open>Properties of download and save\<close>

lemma saveWithAnnotations_begin_prefix:
  "prefix (saveWithAnnotations_begin c) (fst (saveWithAnnotations c io url filename))"
  by (auto simp: saveWithAnnotations_begin_def saveWithAnnotations_def Let_def split_beta
           split: sum.splits option.splits)

lemma download_reports_no_error: "filter is_error_callback (fst (download io url filename)) = []"
  by (auto simp: download_def split: sum.splits option.splits)

lemma saveWithAnnotations_reports_no_error:
  "filter is_error_callback (fst (saveWithAnnotations c io url filename)) = []"
  by (auto simp: saveWithAnnotations_def download_reports_no_error Let_def split_beta
           split: sum.splits option.splits)

lemma download_starts_with_getData: "\<exists>t. fst (download io url filename) = GetData # t"
  by (auto simp: download_def split: sum.splits option.splits)

lemma save_never_starts_with_getData: "fst (saveWithAnnotations c io url filename) \<noteq> GetData # t"
  by (auto simp: saveWithAnnotations_def Let_def split_beta split: sum.splits option.splits)

text \<open>
  C7. When \<^verbatim>\<open>pdf.saveDocument()\<close> throws, \<^verbatim>\<open>saveWithAnnotations\<close> writes the failure to
  the console and then runs the plain \<^verbatim>\<open>download\<close> with the same \<^verbatim>\<open>url\<close> and
  \<^verbatim>\<open>filename\<close>, which hands the bytes of \<^verbatim>\<open>getData\<close> to the download manager under
  that name or, failing that, calls \<^verbatim>\<open>downloadUrl\<close> with them; its promise settles as
  the one of \<^verbatim>\<open>download\<close> does, and no error callback of the host is called.
\<close>

theorem save_failure_falls_back:
  assumes "saveDocument_result io = Inl reason"
  shows "fst (saveWithAnnotations False io url filename) =
           [SetIsSaveInProgress True, SaveDocument, ConsoleError (save_error_message reason)] @
           fst (download io url filename) @ [SetIsSaveInProgress False] \<and>
         snd (saveWithAnnotations False io url filename) = snd (download io url filename) \<and>
         filter is_error_callback (fst (saveWithAnnotations False io url filename)) = [] \<and>
         ((\<exists>d. getData_result io = Inr d \<and> Download d url filename \<in> set (fst (download io url filename))) \<or>
          DownloadUrl url filename \<in> set (fst (download io url filename)))"
proof -
  have A: "fst (saveWithAnnotations False io url filename) =
           [SetIsSaveInProgress True, SaveDocument, ConsoleError (save_error_message reason)] @
           fst (download io url filename) @ [SetIsSaveInProgress False]"
    and B: "snd (saveWithAnnotations False io url filename) = snd (download io url filename)"
    using assms by (simp_all add: saveWithAnnotations_def Let_def split_beta)
  have C: "filter is_error_callback (fst (saveWithAnnotations False io url filename)) = []"
    by (rule saveWithAnnotations_reports_no_error)
  have D: "(\<exists>d. getData_result io = Inr d \<and> Download d url filename \<in> set (fst (download io url filename))) \<or>
          DownloadUrl url filename \<in> set (fst (download io url filename))"
    by (auto simp: download_def split: sum.splits option.splits)
  show ?thesis using A B C D by blast
qed

theorem save_failure_falls_back_witness:
  "saveDocument_result failing_save = Inl ''worker was destroyed'' \<and>
   saveWithAnnotations False failing_save
       (enableDownload_url (Some ''report.pdf'')) (enableDownload_url (Some ''report.pdf'')) =
     ([SetIsSaveInProgress True, SaveDocument,
       ConsoleError ''Error when saving the document: worker was destroyed'',
       GetData, Download [37, 80, 68, 70] ''report.pdf'' ''report.pdf'',
       SetIsSaveInProgress False], None)"
proof -
  have a: "saveDocument_result failing_save = Inl ''worker was destroyed''"
    by (simp add: failing_save_def)
  have d: "download failing_save ''report.pdf'' ''report.pdf'' =
      ([GetData, Download [37, 80, 68, 70] ''report.pdf'' ''report.pdf''], None)"
    by (simp add: download_def failing_save_def)
  have "fst (saveWithAnnotations False failing_save ''report.pdf'' ''report.pdf'') =
          [SetIsSaveInProgress True, SaveDocument,
           ConsoleError (save_error_message ''worker was destroyed'')] @
          fst (download failing_save ''report.pdf'' ''report.pdf'') @ [SetIsSaveInProgress False]"
    and "snd (saveWithAnnotations False failing_save ''report.pdf'' ''report.pdf'') =
          snd (download failing_save ''report.pdf'' ''report.pdf'')"
    using save_failure_falls_back[OF a, of "''report.pdf''" "''report.pdf''"] by blast+
  then have "saveWithAnnotations False failing_save ''report.pdf'' ''report.pdf'' =
     ([SetIsSaveInProgress True, SaveDocument,
       ConsoleError ''Error when saving the document: worker was destroyed'',
       GetData, Download [37, 80, 68, 70] ''report.pdf'' ''report.pdf'',
       SetIsSaveInProgress False], None)"
    by (simp add: d save_error_message_def prod_eq_iff)
  then show ?thesis using a by (simp add: enableDownload_url_def)
qed

text \<open>
  After a render in which \<^verbatim>\<open>isSaveInProgress\<close> is true, the effect has installed a
  command that captured it, and a call of that command does nothing.
\<close>

lemma save_coalesced_after_render:
  "isSaveInProgress s \<Longrightarrow> call_save (enableDownload s) = enableDownload s"
  by (simp add: call_save_def saveWithAnnotations_begin_def enableDownload_def)

text \<open>
  Once the save has settled and the component has rendered again, the command accepts
  the next call.
\<close>

lemma save_accepted_after_settling:
  "call_save (enableDownload (save_settled (enableDownload (call_save idle)))) =
     \<lparr>isSaveInProgress = True, captured = False, savesInFlight = 1\<rparr>"
  by (simp add: call_save_def saveWithAnnotations_begin_def enableDownload_def save_settled_def
        idle_def)

text \<open>
  C9 at the input where the code departs from it. The command is called twice before
  the component renders again: both calls run the function that captured
  \<^verbatim>\<open>isSaveInProgress = false\<close>, both pass the guard and both call \<^verbatim>\<open>pdf.saveDocument()\<close>,
  so two saves are in flight.
\<close>

theorem second_save_not_coalesced:
  "saveWithAnnotations_begin (captured idle) = [SetIsSaveInProgress True, SaveDocument] \<and>
   captured (call_save idle) = captured idle \<and>
   savesInFlight (call_save idle) = 1 \<and>
   savesInFlight (call_save (call_save idle)) = 2"
  by (simp add: call_save_def saveWithAnnotations_begin_def idle_def)

text \<open>
  C10. \<^verbatim>\<open>downloadWithAnnotations\<close> does what \<^verbatim>\<open>saveWithAnnotations\<close> does exactly when
  \<^verbatim>\<open>pdf.annotationStorage.size\<close> is greater than zero, and what the plain \<^verbatim>\<open>download\<close>
  does exactly when it is zero.
\<close>

theorem downloadWithAnnotations_path:
  "(downloadWithAnnotations c io url filename = fst (saveWithAnnotations c io url filename)) =
     (0 < annotationStorage_size io) \<and>
   (downloadWithAnnotations c io url filename = fst (download io url filename)) =
     (annotationStorage_size io = 0)"
proof -
  obtain t where t: "fst (download io url filename) = GetData # t"
    using download_starts_with_getData by blast
  have "fst (download io url filename) \<noteq> fst (saveWithAnnotations c io url filename)"
    using t save_never_starts_with_getData[of c io url filename t] by simp
  then show ?thesis by (auto simp: downloadWithAnnotations_def)
qed

end
